theory Spec2Isabelle
  imports Main
begin

section \<open>Python string and path primitives used by \<^verbatim>\<open>templates/utils.py\<close>\<close>

text \<open>
  The script is Python 2 (it uses the \<^verbatim>\<open>print\<close> statement), so every string it handles
  is a byte string: \<^typ>\<open>string\<close>, a list of 8-bit \<^typ>\<open>char\<close>. The functions of this section
  are the POSIX flavour of the standard library calls the script makes
  (\<^verbatim>\<open>posixpath.join\<close>, \<^verbatim>\<open>posixpath.dirname\<close>, \<^verbatim>\<open>posixpath.splitext\<close>, \<^verbatim>\<open>str.split\<close>,
  \<^verbatim>\<open>str.lower\<close>), written after the library's own code.
\<close>

datatype error =
    IndexError
  | ENOENT | ENOTDIR | EISDIR | ENOTEMPTY | EACCES

definition startswith :: "string \<Rightarrow> string \<Rightarrow> bool" where
  "startswith s p = (take (length p) s = p)"

definition endswith :: "string \<Rightarrow> string \<Rightarrow> bool" where
  "endswith s p = (length p \<le> length s \<and> drop (length s - length p) s = p)"

text \<open>
  \<^verbatim>\<open>posixpath.join(a, b)\<close>: an absolute second component replaces the first; otherwise the
  two are glued with exactly one separator, none being added after an empty first component
  or one that already ends in a separator.
\<close>

definition join :: "string \<Rightarrow> string \<Rightarrow> string" where
  "join a b =
     (if startswith b ''/'' then b
      else if a = [] \<or> endswith a ''/'' then a @ b
      else a @ ''/'' @ b)"

text \<open>\<^verbatim>\<open>str.rfind(c)\<close> for a single character: the highest index of \<open>c\<close>, or \<open>-1\<close>.\<close>

definition rfind :: "string \<Rightarrow> char \<Rightarrow> int" where
  "rfind s c =
     (if c \<in> set s
      then int (length s) - 1 - int (length (takeWhile (\<lambda>x. x \<noteq> c) (rev s)))
      else - 1)"

text \<open>\<^verbatim>\<open>str.rstrip(c)\<close> for a single character.\<close>

definition rstrip :: "string \<Rightarrow> char \<Rightarrow> string" where
  "rstrip s c = rev (dropWhile (\<lambda>x. x = c) (rev s))"

text \<open>
  \<^verbatim>\<open>posixpath.dirname(p)\<close>: everything up to and including the last separator, with
  trailing separators removed unless nothing else is left.
\<close>

definition dirname :: "string \<Rightarrow> string" where
  "dirname p =
     (let i = nat (rfind p CHR ''/'' + 1); head = take i p
      in if head \<noteq> [] \<and> head \<noteq> replicate (length head) CHR ''/''
         then rstrip head CHR ''/'' else head)"

text \<open>
  \<^verbatim>\<open>posixpath.splitext(p)\<close> is \<^verbatim>\<open>genericpath._splitext(p, '/', None, '.')\<close>: the extension
  starts at the last dot of the last path component, unless that component has nothing but
  dots before it. The scan below is the library's \<^verbatim>\<open>while filenameIndex < dotIndex\<close> loop.
\<close>

function splitext_scan :: "string \<Rightarrow> nat \<Rightarrow> nat \<Rightarrow> string \<times> string" where
  "splitext_scan p filenameIndex dotIndex =
     (if filenameIndex < dotIndex
      then (if p ! filenameIndex \<noteq> CHR ''.''
            then (take dotIndex p, drop dotIndex p)
            else splitext_scan p (Suc filenameIndex) dotIndex)
      else (p, []))"
  by pat_completeness auto
termination
  by (relation "measure (\<lambda>(p, filenameIndex, dotIndex). dotIndex - filenameIndex)") auto

declare splitext_scan.simps [simp del]

definition splitext :: "string \<Rightarrow> string \<times> string" where
  "splitext p =
     (let sepIndex = rfind p CHR ''/''; dotIndex = rfind p CHR ''.''
      in if dotIndex > sepIndex
         then splitext_scan p (nat (sepIndex + 1)) (nat dotIndex)
         else (p, []))"

text \<open>
  \<^verbatim>\<open>str.split(sep)\<close> with a one-character separator: the pieces between the separators, in
  order; the result always has at least one piece.
\<close>

fun split_acc :: "char \<Rightarrow> string \<Rightarrow> string \<Rightarrow> string list" where
  "split_acc sep cur [] = [cur]"
| "split_acc sep cur (c # cs) =
     (if c = sep then cur # split_acc sep [] cs else split_acc sep (cur @ [c]) cs)"

definition split_str :: "string \<Rightarrow> char \<Rightarrow> string list" where
  "split_str s sep = split_acc sep [] s"

text \<open>
  \<^verbatim>\<open>str.lower()\<close> on a Python 2 byte string in the C locale: the bytes \<open>A\<close> to \<open>Z\<close> are
  moved to \<open>a\<close> to \<open>z\<close>, every other byte is kept.
\<close>

definition is_upper :: "char \<Rightarrow> bool" where
  "is_upper c = (65 \<le> (of_char c :: nat) \<and> (of_char c :: nat) \<le> 90)"

definition lower_char :: "char \<Rightarrow> char" where
  "lower_char c = (if is_upper c then char_of ((of_char c :: nat) + 32) else c)"

definition lower :: "string \<Rightarrow> string" where
  "lower s = map lower_char s"

section \<open>The name computed by the rename loop\<close>

text \<open>
  Line 25 of the script: \<^verbatim>\<open>new_name = basename.split('_')[0].lower() + ext\<close>. Indexing the
  list of pieces with \<^verbatim>\<open>[0]\<close> raises \<open>IndexError\<close> on an empty list; the branch is kept although
  \<open>split_str\<close> never returns one.
\<close>

definition new_name :: "string \<Rightarrow> string \<Rightarrow> error + string" where
  "new_name basename ext =
     (case split_str basename CHR ''_'' of
        [] \<Rightarrow> Inl IndexError
      | piece # _ \<Rightarrow> Inr (lower piece @ ext))"

text \<open>
  What one iteration of the rename loop decides for the entry \<open>f\<close> (lines 23 to 25): \<open>None\<close> when
  the guard \<^verbatim>\<open>ext == '.jpg'\<close> fails and nothing is renamed, otherwise the new name.
\<close>

definition rename_target :: "string \<Rightarrow> (error + string) option" where
  "rename_target f =
     (case splitext f of (basename, ext) \<Rightarrow>
        if ext = ''.jpg'' then Some (new_name basename ext) else None)"

text \<open>The extension of the glossary of the specification: what follows the last dot.\<close>

definition glossary_extension :: "string \<Rightarrow> string" where
  "glossary_extension f = rev (takeWhile (\<lambda>c. c \<noteq> CHR ''.'') (rev f))"

section \<open>The file system and the process\<close>

text \<open>
  The operating system side of \<^verbatim>\<open>os.listdir\<close>, \<^verbatim>\<open>os.path.isfile\<close> and \<^verbatim>\<open>os.rename\<close>. A file
  system is a store from locations to nodes; a location is the list of names leading from
  the root to the node, so the root is \<open>[]\<close> and the entry \<open>f\<close> of the directory at \<open>d\<close> is at
  \<open>d @ [f]\<close>. The store is an association list: its order is the order in which a directory
  reports its entries. There are regular files (with their contents) and directories (with
  a read and a write permission); links, devices and mount points are outside the model.
\<close>

datatype node = File string | Dir bool bool

record world =
  cwd :: string
  nodes :: "(string list \<times> node) list"
  stdout :: "string list"

text \<open>
  Path resolution: a relative path is taken from the working directory, then the
  components are walked from the root; empty components and \<open>.\<close> stay in place, \<open>..\<close> goes
  up one level.
\<close>

definition walk :: "string list \<Rightarrow> string \<Rightarrow> string list" where
  "walk loc c =
     (if c = [] \<or> c = ''.'' then loc
      else if c = ''..'' then butlast loc
      else loc @ [c])"

definition resolve :: "world \<Rightarrow> string \<Rightarrow> string list" where
  "resolve w p = foldl walk [] (split_str (join (cwd w) p) CHR ''/'')"

definition valid_name :: "string \<Rightarrow> bool" where
  "valid_name n = (n \<noteq> [] \<and> CHR ''/'' \<notin> set n \<and> n \<noteq> ''.'' \<and> n \<noteq> ''..'')"

definition is_child :: "string list \<Rightarrow> string list \<Rightarrow> bool" where
  "is_child d k = (k \<noteq> [] \<and> butlast k = d \<and> valid_name (last k))"

definition children :: "world \<Rightarrow> string list \<Rightarrow> string list" where
  "children w d = map last (filter (is_child d) (map fst (nodes w)))"

text \<open>\<^verbatim>\<open>os.listdir(p)\<close>: the names of the entries of a readable directory, in store order.\<close>

definition os_listdir :: "world \<Rightarrow> string \<Rightarrow> error + string list" where
  "os_listdir w p =
     (if p = [] then Inl ENOENT
      else case map_of (nodes w) (resolve w p) of
             None \<Rightarrow> Inl ENOENT
           | Some (File _) \<Rightarrow> Inl ENOTDIR
           | Some (Dir r _) \<Rightarrow> if r then Inr (children w (resolve w p)) else Inl EACCES)"

text \<open>
  \<^verbatim>\<open>os.path.isfile(p)\<close> calls \<^verbatim>\<open>os.stat\<close>, answers \<open>False\<close> when that fails, and otherwise tells
  whether the node is a regular file. It never raises.
\<close>

definition isfile :: "world \<Rightarrow> string \<Rightarrow> bool" where
  "isfile w p =
     (if p = [] then False
      else case map_of (nodes w) (resolve w p) of
             Some (File _) \<Rightarrow> True
           | _ \<Rightarrow> False)"

text \<open>
  \<^verbatim>\<open>os.rename(old, new)\<close> is the POSIX \<^verbatim>\<open>rename\<close>: a missing source is \<open>ENOENT\<close>; renaming a
  node to itself does nothing; both parent directories must be writable; an existing
  target is replaced when it is a regular file (and the source is one) or an empty
  directory (and the source is a directory), and is an error otherwise. A directory moves
  with everything below it. On an error the file system is left as it was.
\<close>

definition rekey :: "string list \<Rightarrow> string list \<Rightarrow> string list \<Rightarrow> string list" where
  "rekey src dst k = (if take (length src) k = src then dst @ drop (length src) k else k)"

definition move :: "string list \<Rightarrow> string list \<Rightarrow> world \<Rightarrow> world" where
  "move src dst w =
     w\<lparr>nodes := map (\<lambda>(k, v). (rekey src dst k, v))
                   (filter (\<lambda>(k, v). k \<noteq> dst) (nodes w))\<rparr>"

definition writable_dir :: "world \<Rightarrow> string list \<Rightarrow> error + unit" where
  "writable_dir w d =
     (case map_of (nodes w) d of
        None \<Rightarrow> Inl ENOENT
      | Some (File _) \<Rightarrow> Inl ENOTDIR
      | Some (Dir _ wr) \<Rightarrow> if wr then Inr () else Inl EACCES)"

definition os_rename :: "string \<Rightarrow> string \<Rightarrow> world \<Rightarrow> error + world" where
  "os_rename old new w =
     (if old = [] \<or> new = [] then Inl ENOENT
      else let src = resolve w old; dst = resolve w new
           in case map_of (nodes w) src of
                None \<Rightarrow> Inl ENOENT
              | Some sn \<Rightarrow>
                  if src = dst then Inr w
                  else (case writable_dir w (butlast src) of
                          Inl e \<Rightarrow> Inl e
                        | Inr _ \<Rightarrow>
                            (case writable_dir w (butlast dst) of
                               Inl e \<Rightarrow> Inl e
                             | Inr _ \<Rightarrow>
                                 (case (sn, map_of (nodes w) dst) of
                                    (_, None) \<Rightarrow> Inr (move src dst w)
                                  | (File _, Some (File _)) \<Rightarrow> Inr (move src dst w)
                                  | (File _, Some (Dir _ _)) \<Rightarrow> Inl EISDIR
                                  | (Dir _ _, Some (File _)) \<Rightarrow> Inl ENOTDIR
                                  | (Dir _ _, Some (Dir _ _)) \<Rightarrow>
                                      if children w dst = [] then Inr (move src dst w)
                                      else Inl ENOTEMPTY))))"

section \<open>The script\<close>

text \<open>The \<^verbatim>\<open>print\<close> statement appends one line to standard output.\<close>

definition print_line :: "string \<Rightarrow> world \<Rightarrow> world" where
  "print_line s w = w\<lparr>stdout := stdout w @ [s]\<rparr>"

text \<open>
  Lines 14 to 18, the listing loop over the names \<^verbatim>\<open>os.listdir(mypath)\<close> returned:
  \<^verbatim>\<open>path = os.path.join(mypath, f)\<close>, and \<^verbatim>\<open>print os.path.join(dir_path, path)\<close> under the guard
  \<^verbatim>\<open>os.path.isfile(path)\<close>.
\<close>

fun listing_loop :: "string \<Rightarrow> string \<Rightarrow> string list \<Rightarrow> world \<Rightarrow> world" where
  "listing_loop dir_path mypath [] w = w"
| "listing_loop dir_path mypath (f # fs) w =
     (let path = join mypath f
      in listing_loop dir_path mypath fs
           (if isfile w path then print_line (join dir_path path) w else w))"

text \<open>
  Lines 23 to 26, the body of the rename loop for the entry \<open>f\<close>: the only guard is
  \<^verbatim>\<open>ext == '.jpg'\<close>.
\<close>

definition rename_body :: "string \<Rightarrow> string \<Rightarrow> world \<Rightarrow> error + world" where
  "rename_body dir f w =
     (case splitext f of (basename, ext) \<Rightarrow>
        if ext = ''.jpg''
        then (case new_name basename ext of
                Inl e \<Rightarrow> Inl e
              | Inr name \<Rightarrow> os_rename (join dir f) (join dir name) w)
        else Inr w)"

text \<open>
  The rename loop. Nothing catches an exception, so the first failing iteration ends the
  loop; the result is the world at that moment together with the error, or the final world
  and no error.
\<close>

fun rename_loop :: "string \<Rightarrow> string list \<Rightarrow> world \<Rightarrow> world \<times> error option" where
  "rename_loop dir [] w = (w, None)"
| "rename_loop dir (f # fs) w =
     (case rename_body dir f w of
        Inl e \<Rightarrow> (w, Some e)
      | Inr w' \<Rightarrow> rename_loop dir fs w')"

text \<open>
  Lines 14 to 18 with the call that feeds the loop: a failing \<^verbatim>\<open>os.listdir\<close> raises before
  anything is printed.
\<close>

definition listing_pass :: "string \<Rightarrow> string \<Rightarrow> world \<Rightarrow> world \<times> error option" where
  "listing_pass dir_path mypath w =
     (case os_listdir w mypath of
        Inl e \<Rightarrow> (w, Some e)
      | Inr names \<Rightarrow> (listing_loop dir_path mypath names w, None))"

text \<open>Lines 21 to 26: \<^verbatim>\<open>dir = mypath\<close>, a second \<^verbatim>\<open>os.listdir\<close>, and the rename loop.\<close>

definition rename_pass :: "string \<Rightarrow> world \<Rightarrow> world \<times> error option" where
  "rename_pass mypath w =
     (let dir = mypath
      in case os_listdir w dir of
           Inl e \<Rightarrow> (w, Some e)
         | Inr names \<Rightarrow> rename_loop dir names w)"

text \<open>
  The whole script. \<open>script\<close> is \<^verbatim>\<open>os.path.realpath(__file__)\<close>, the absolute path of the script
  file; \<open>argv\<close> is \<^verbatim>\<open>sys.argv\<close>, and \<^verbatim>\<open>sys.argv[1]\<close> raises \<open>IndexError\<close> when no argument was
  given. The variable \<^verbatim>\<open>basename\<close> of line 8 is overwritten in the rename loop before it is
  read and is left out. A result \<open>(w, Some e)\<close> is the process ending on the unhandled
  exception \<open>e\<close> with the world \<open>w\<close> left behind.
\<close>

definition main :: "string \<Rightarrow> string list \<Rightarrow> world \<Rightarrow> world \<times> error option" where
  "main script argv w =
     (let dir_path = dirname script
      in case argv of
           _ # mypath # _ \<Rightarrow>
             (case listing_pass dir_path mypath w of
                (w1, Some e) \<Rightarrow> (w1, Some e)
              | (w1, None) \<Rightarrow> rename_pass mypath w1)
         | _ \<Rightarrow> (w, Some IndexError))"

section \<open>Vocabulary of the properties\<close>

text \<open>The node at a location is a regular file.\<close>

definition regular :: "world \<Rightarrow> string list \<Rightarrow> bool" where
  "regular w k = (case map_of (nodes w) k of Some (File _) \<Rightarrow> True | _ \<Rightarrow> False)"

text \<open>
  The iteration of the rename loop for the entry \<open>f\<close> touches the name \<open>g\<close> of the same
  directory: it renames \<open>f\<close> to a different name, and \<open>g\<close> is the old or the new one.
\<close>

definition touches :: "string \<Rightarrow> string \<Rightarrow> bool" where
  "touches f g =
     (case rename_target f of
        Some (Inr t) \<Rightarrow> t \<noteq> f \<and> (g = f \<or> g = t)
      | _ \<Rightarrow> False)"

section \<open>Example directories\<close>

text \<open>
  Worlds on which the properties below are exercised. In each the working directory is
  \<^verbatim>\<open>/home/u\<close> and the directory handed to the script is \<^verbatim>\<open>/home/u/pics\<close>.
\<close>

definition in_pics :: "(string \<times> node) list \<Rightarrow> world" where
  "in_pics entries =
     \<lparr>cwd = ''/home/u'',
      nodes = ([''home'', ''u'', ''pics''], Dir True True)
              # map (\<lambda>(n, v). ([''home'', ''u'', ''pics'', n], v)) entries,
      stdout = []\<rparr>"

definition pics :: world where
  "pics =
     \<lparr>cwd = ''/home/u'',
      nodes =
        [([''home'', ''u'', ''pics''], Dir True True),
         ([''home'', ''u'', ''pics'', ''X_Y.jpg''], File ''one''),
         ([''home'', ''u'', ''pics'', ''album''], Dir True True),
         ([''home'', ''u'', ''pics'', ''Photo.jpg''], File ''two''),
         ([''home'', ''u'', ''pics'', ''notes.txt''], File ''three''),
         ([''home'', ''u'', ''pics'', ''IMG.JPG''], File ''four''),
         ([''home'', ''u'', ''pics'', ''Trip_2019.jpg''], Dir True True),
         ([''home'', ''u'', ''pics'', ''Trip_2019.jpg'', ''day1.txt''], File ''five'')],
      stdout = []\<rparr>"

definition tidy :: world where
  "tidy = in_pics [(''photo.jpg'', File ''one''), (''notes.txt'', File ''two''),
                   (''x.jpg'', File ''three''), (''album'', Dir True True)]"



definition clash_dir :: world where
  "clash_dir = in_pics [(''b_1.jpg'', File ''zero''), (''a_1.jpg'', File ''first''),
                        (''a_2.jpg'', File ''second''), (''a.jpg'', Dir True True),
                        (''c_1.jpg'', File ''third'')]"

text \<open>\<open>clash_dir\<close> after its first entry has been renamed.\<close>

definition clash_dir_stopped :: world where
  "clash_dir_stopped = in_pics [(''b.jpg'', File ''zero''), (''a_1.jpg'', File ''first''),
                                (''a_2.jpg'', File ''second''), (''a.jpg'', Dir True True),
                                (''c_1.jpg'', File ''third'')]"


section \<open>Facts about the string primitives\<close>

lemma split_acc_head:
  "\<exists>ws. split_acc sep cur s = (cur @ takeWhile (\<lambda>x. x \<noteq> sep) s) # ws"
proof (induction s arbitrary: cur)
  case Nil
  show ?case by simp
next
  case (Cons a s)
  show ?case
  proof (cases "a = sep")
    case True
    then show ?thesis by simp
  next
    case False
    with Cons [of "cur @ [a]"] show ?thesis by simp
  qed
qed

lemma split_str_head:
  "\<exists>ws. split_str s sep = takeWhile (\<lambda>x. x \<noteq> sep) s # ws"
  using split_acc_head [of sep "[]" s] by (simp add: split_str_def)

lemma new_name_eq:
  "new_name b e = Inr (lower (takeWhile (\<lambda>x. x \<noteq> CHR ''_'') b) @ e)"
proof -
  obtain ws where "split_str b CHR ''_'' = takeWhile (\<lambda>x. x \<noteq> CHR ''_'') b # ws"
    using split_str_head by blast
  then show ?thesis by (simp add: new_name_def)
qed

lemma lower_char_not_upper: "\<not> is_upper (lower_char c)"
  by (auto simp: is_upper_def lower_char_def of_char_of)

lemma lower_char_underscore: "lower_char c = CHR ''_'' \<Longrightarrow> c = CHR ''_''"
proof (cases "is_upper c")
  case False
  assume "lower_char c = CHR ''_''"
  with False show ?thesis by (simp add: lower_char_def)
next
  case True
  assume "lower_char c = CHR ''_''"
  with True have "char_of ((of_char c :: nat) + 32) = CHR ''_''"
    by (simp add: lower_char_def)
  then have "(of_char (char_of ((of_char c :: nat) + 32)) :: nat) = of_char CHR ''_''"
    by simp
  with True show ?thesis by (simp add: of_char_of is_upper_def)
qed

lemma lower_no_upper: "\<forall>c\<in>set (lower s). \<not> is_upper c"
  by (simp add: lower_def lower_char_not_upper)

lemma lower_no_underscore: "CHR ''_'' \<notin> set s \<Longrightarrow> CHR ''_'' \<notin> set (lower s)"
proof
  assume free: "CHR ''_'' \<notin> set s" and "CHR ''_'' \<in> set (lower s)"
  then obtain c where "c \<in> set s" and "lower_char c = CHR ''_''"
    by (auto simp: lower_def)
  with free show False
    using lower_char_underscore by blast
qed

lemma lower_fixed: "\<forall>c\<in>set s. \<not> is_upper c \<Longrightarrow> lower s = s"
  by (induction s) (auto simp: lower_def lower_char_def)

lemma takeWhile_underscore_free: "CHR ''_'' \<notin> set (takeWhile (\<lambda>x. x \<noteq> CHR ''_'') b)"
  by (induction b) auto

lemma splitext_scan_concat: "splitext_scan p i d = (b, e) \<Longrightarrow> b @ e = p"
proof (induction p i d rule: splitext_scan.induct)
  case (1 p i d)
  then show ?case
    by (subst (asm) (2) splitext_scan.simps) (auto split: if_splits)
qed

lemma splitext_concat: "splitext p = (b, e) \<Longrightarrow> b @ e = p"
  by (auto simp: splitext_def Let_def splitext_scan_concat split: if_splits)

lemma splitext_dot_jpg: "splitext ''.jpg'' = (''.jpg'', [])"
  by (simp add: splitext_def rfind_def splitext_scan.simps)

lemma rename_target_jpg:
  "splitext f = (b, ''.jpg'') \<Longrightarrow>
   rename_target f = Some (Inr (lower (takeWhile (\<lambda>x. x \<noteq> CHR ''_'') b) @ ''.jpg''))"
  by (simp add: rename_target_def new_name_eq)

lemma rename_target_Some:
  "rename_target f = Some r \<Longrightarrow>
   r = Inr (lower (takeWhile (\<lambda>x. x \<noteq> CHR ''_'') (fst (splitext f))) @ ''.jpg'')"
  by (auto simp: rename_target_def new_name_eq split: prod.splits if_splits)

lemma rename_target_fixed:
  assumes "CHR ''_'' \<notin> set p" and "\<forall>c\<in>set p. \<not> is_upper c"
  shows "rename_target (p @ ''.jpg'') = None \<or> rename_target (p @ ''.jpg'') = Some (Inr (p @ ''.jpg''))"
proof (cases "snd (splitext (p @ ''.jpg'')) = ''.jpg''")
  case False
  then show ?thesis by (auto simp: rename_target_def split: prod.splits)
next
  case True
  then obtain b where sp: "splitext (p @ ''.jpg'') = (b, ''.jpg'')"
    by (cases "splitext (p @ ''.jpg'')") simp
  from splitext_concat [OF sp] have b: "b = p" by simp
  have "takeWhile (\<lambda>x. x \<noteq> CHR ''_'') p = p"
    using assms(1) by (induction p) auto
  then have "lower (takeWhile (\<lambda>x. x \<noteq> CHR ''_'') p) = p"
    using lower_fixed [OF assms(2)] by (simp only:)
  with rename_target_jpg [OF sp] b
  have "rename_target (p @ ''.jpg'') = Some (Inr (p @ ''.jpg''))" by (simp only:)
  then show ?thesis ..
qed

section \<open>Facts about path resolution\<close>

lemma startswith_slash: "startswith s ''/'' \<longleftrightarrow> (s \<noteq> [] \<and> hd s = CHR ''/'')"
  by (cases s) (auto simp: startswith_def)

lemma endswith_slash: "endswith s ''/'' \<longleftrightarrow> (s \<noteq> [] \<and> last s = CHR ''/'')"
proof (cases s rule: rev_cases)
  case Nil
  then show ?thesis by (simp add: endswith_def)
next
  case (snoc ys y)
  then show ?thesis by (auto simp: endswith_def)
qed

lemma join_absolute: "startswith p ''/'' \<Longrightarrow> join a p = p"
  by (simp add: join_def)

lemma split_acc_sep:
  "split_acc sep cur (a @ sep # b) = split_acc sep cur a @ split_acc sep [] b"
  by (induction a arbitrary: cur) auto

lemma split_acc_no_sep: "sep \<notin> set f \<Longrightarrow> split_acc sep cur f = [cur @ f]"
  by (induction f arbitrary: cur) auto

lemma split_str_snoc_name:
  "sep \<notin> set f \<Longrightarrow> split_str (a @ sep # f) sep = split_str a sep @ [f]"
  by (simp add: split_str_def split_acc_sep split_acc_no_sep)

lemma split_str_snoc_sep: "split_str (a @ [sep]) sep = split_str a sep @ [[]]"
  using split_acc_sep [of sep "[]" a "[]"] by (simp add: split_str_def)

lemma valid_name_no_slash: "valid_name f \<Longrightarrow> \<not> startswith f ''/''"
  by (cases f) (auto simp: valid_name_def startswith_def)

lemma join_name_shape:
  assumes "valid_name f" and "x \<noteq> []"
  shows "\<exists>y. join x f = y @ CHR ''/'' # f \<and> (x = y \<or> x = y @ ''/'')"
proof (cases "endswith x ''/''")
  case True
  then have "x = butlast x @ ''/''"
    by (metis append_butlast_last_id endswith_slash)
  moreover from True assms have "join x f = x @ f"
    by (simp add: join_def valid_name_no_slash)
  ultimately show ?thesis
    by (metis append.assoc append_Cons append_Nil)
next
  case False
  with assms have "join x f = x @ CHR ''/'' # f"
    by (simp add: join_def valid_name_no_slash)
  then show ?thesis by blast
qed

lemma join_nonempty: "b \<noteq> [] \<Longrightarrow> join a b \<noteq> []"
  by (auto simp: join_def)

lemma join_assoc_name:
  assumes "valid_name f"
  shows "join a (join b f) = join (join a b) f"
  using assms valid_name_no_slash [OF assms]
  by (auto simp: join_def startswith_slash endswith_slash valid_name_def)

lemma walk_name: "valid_name f \<Longrightarrow> walk loc f = loc @ [f]"
  by (auto simp: walk_def valid_name_def)

lemma resolve_join:
  assumes "valid_name f" and "mypath \<noteq> []"
  shows "resolve w (join mypath f) = resolve w mypath @ [f]"
proof -
  let ?x = "join (cwd w) mypath"
  have "?x \<noteq> []" using assms(2) by (rule join_nonempty)
  from join_name_shape [OF assms(1) this] obtain y
    where y: "join ?x f = y @ CHR ''/'' # f" and xy: "?x = y \<or> ?x = y @ ''/''"
    by blast
  have sl: "CHR ''/'' \<notin> set f" using assms(1) by (simp add: valid_name_def)
  have "resolve w (join mypath f) = foldl walk [] (split_str (y @ CHR ''/'' # f) CHR ''/'')"
    by (simp add: resolve_def join_assoc_name [OF assms(1)] y)
  also have "\<dots> = foldl walk [] (split_str y CHR ''/'') @ [f]"
    by (simp add: split_str_snoc_name [OF sl] walk_name [OF assms(1)])
  also have "foldl walk [] (split_str y CHR ''/'') = resolve w mypath"
    using xy by (auto simp: resolve_def split_str_snoc_sep walk_def)
  finally show ?thesis .
qed

lemma resolve_absolute: "startswith p ''/'' \<Longrightarrow> resolve w p = resolve w' p"
  by (simp add: resolve_def join_absolute)

section \<open>Facts about the store under a rename\<close>

lemma map_of_rekeyed:
  assumes "\<forall>k\<in>fst ` set ys. f k = k' \<longleftrightarrow> k = k0"
  shows "map_of (map (\<lambda>(k, v). (f k, v)) ys) k' = map_of ys k0"
  using assms by (induction ys) auto


lemma map_of_filter_other:
  "k \<noteq> dst \<Longrightarrow> map_of (filter (\<lambda>(k, v). k \<noteq> dst) xs) k = map_of xs k"
  by (induction xs) auto

lemma fst_set_filter: "k \<in> fst ` set (filter (\<lambda>(k, v). k \<noteq> dst) xs) \<Longrightarrow> k \<noteq> dst"
  by auto

lemma rekey_below: "take (length dst) (rekey src dst k) = dst \<or> rekey src dst k = k"
  by (simp add: rekey_def)



lemma rekey_eq_other:
  assumes "take (length src) k' \<noteq> src" and "take (length dst) k' \<noteq> dst"
  shows "rekey src dst k = k' \<longleftrightarrow> k = k'"
  using assms by (auto simp: rekey_def)

lemma move_other:
  assumes "take (length src) k' \<noteq> src" and "take (length dst) k' \<noteq> dst"
  shows "map_of (nodes (move src dst w)) k' = map_of (nodes w) k'"
proof -
  have "k' \<noteq> dst" using assms(2) by auto
  moreover have "map_of (nodes (move src dst w)) k'
        = map_of (filter (\<lambda>(k, v). k \<noteq> dst) (nodes w)) k'"
    unfolding move_def using rekey_eq_other [OF assms]
    by (simp add: map_of_rekeyed [where ?k0.0 = k'])
  ultimately show ?thesis by (simp add: map_of_filter_other)
qed


lemma move_cwd [simp]: "cwd (move src dst w) = cwd w"
  by (simp add: move_def)

lemma move_stdout [simp]: "stdout (move src dst w) = stdout w"
  by (simp add: move_def)

lemma resolve_cwd: "cwd w' = cwd w \<Longrightarrow> resolve w' p = resolve w p"
  by (simp add: resolve_def)


lemma os_rename_same: "os_rename p p w = Inr w \<or> os_rename p p w = Inl ENOENT"
  by (auto simp: os_rename_def Let_def split: option.splits)

section \<open>Facts about one iteration of the rename loop\<close>




lemma rename_body_None: "rename_target f = None \<Longrightarrow> rename_body dir f w = Inr w"
  by (auto simp: rename_target_def rename_body_def split: prod.splits if_splits)

lemma rename_body_Some:
  "rename_target f = Some (Inr t) \<Longrightarrow>
   rename_body dir f w = os_rename (join dir f) (join dir t) w"
  by (auto simp: rename_target_def rename_body_def split: prod.splits if_splits)


lemma sibling_below [simp]:
  "take (length (d @ [f])) (d @ g # rest) = d @ [f] \<longleftrightarrow> g = f"
  by simp

lemma parent_not_below [simp]: "take (length (d @ [f])) d \<noteq> d @ [f]"
  by (metis length_append_singleton length_take lessI min.absorb4 nat_neq_iff min_less_iff_conj not_less_eq)


section \<open>Facts about directory listings\<close>

lemma is_child_key: "is_child d k \<Longrightarrow> k = d @ [last k]"
  by (auto simp: is_child_def)

lemma children_present:
  assumes "f \<in> set (children w d)"
  shows "valid_name f \<and> map_of (nodes w) (d @ [f]) \<noteq> None"
proof -
  from assms obtain k where k: "k \<in> fst ` set (nodes w)" "is_child d k" "f = last k"
    by (auto simp: children_def)
  from is_child_key [OF k(2)] k(3) have "k = d @ [f]" by simp
  with k(1) have "d @ [f] \<in> fst ` set (nodes w)" by simp
  with k show ?thesis
    by (simp add: map_of_eq_None_iff is_child_def)
qed

lemma os_listdir_names:
  assumes "os_listdir w mypath = Inr names"
  shows "mypath \<noteq> [] \<and> names = children w (resolve w mypath)"
  using assms
  by (auto simp: os_listdir_def split: if_splits option.splits node.splits)

lemma os_listdir_entries:
  assumes "os_listdir w mypath = Inr names" and "f \<in> set names"
  shows "valid_name f \<and> map_of (nodes w) (resolve w mypath @ [f]) \<noteq> None"
  using os_listdir_names [OF assms(1)] assms(2) children_present by blast

section \<open>Facts about the rename loop\<close>







lemma rename_loop_append:
  "rename_loop dir xs w = (w1, None) \<Longrightarrow> rename_loop dir (xs @ ys) w = rename_loop dir ys w1"
  by (induction xs arbitrary: w) (auto split: sum.splits)

lemma rename_loop_abort:
  "rename_loop dir xs w = (w1, Some e) \<Longrightarrow> rename_loop dir (xs @ ys) w = (w1, Some e)"
  by (induction xs arbitrary: w) (auto split: sum.splits)

section \<open>Facts about the listing loop\<close>

lemma isfile_regular:
  assumes "mypath \<noteq> []" and "valid_name f"
  shows "isfile w (join mypath f) = regular w (resolve w mypath @ [f])"
proof -
  have "join mypath f \<noteq> []"
    using assms(2) by (intro join_nonempty) (simp add: valid_name_def)
  then show ?thesis
    by (simp add: isfile_def regular_def resolve_join [OF assms(2,1)]
             split: option.splits node.splits)
qed

lemma print_line_same [simp]:
  "nodes (print_line s w) = nodes w" "cwd (print_line s w) = cwd w"
  by (simp_all add: print_line_def)

lemma regular_printed: "nodes w' = nodes w \<Longrightarrow> regular w' k = regular w k"
  by (simp add: regular_def)

lemma listing_loop_prints:
  assumes "mypath \<noteq> []" and "\<forall>f\<in>set names. valid_name f"
  shows "listing_loop dir_path mypath names w
         = w\<lparr>stdout := stdout w @ map (\<lambda>f. join dir_path (join mypath f))
                (filter (\<lambda>f. regular w (resolve w mypath @ [f])) names)\<rparr>"
  using assms(2)
proof (induction names arbitrary: w)
  case Nil
  show ?case by simp
next
  case (Cons f names)
  then have f: "valid_name f" and rest: "\<forall>f\<in>set names. valid_name f" by simp_all
  let ?w1 = "print_line (join dir_path (join mypath f)) w"
  have same: "resolve ?w1 mypath = resolve w mypath"
       "\<And>k. regular ?w1 k = regular w k"
    by (rule resolve_cwd, simp) (rule regular_printed, simp)
  show ?case
  proof (cases "regular w (resolve w mypath @ [f])")
    case True
    with Cons.IH [OF rest, of ?w1] same show ?thesis
      by (simp add: isfile_regular [OF assms(1) f] Let_def print_line_def)
  next
    case False
    with Cons.IH [OF rest, of w] show ?thesis
      by (simp add: isfile_regular [OF assms(1) f] Let_def)
  qed
qed

lemma takeWhile_no_underscore:
  "CHR ''_'' \<notin> set b \<Longrightarrow> takeWhile (\<lambda>c. c \<noteq> CHR ''_'') b = b"
  by (induction b) auto



lemma os_rename_self:
  "old \<noteq> [] \<Longrightarrow> map_of (nodes w) (resolve w old) \<noteq> None \<Longrightarrow> os_rename old old w = Inr w"
  by (auto simp: os_rename_def Let_def split: option.splits)

lemma rename_loop_identity:
  assumes "\<forall>f\<in>set names. rename_body dir f w = Inr w"
  shows "rename_loop dir names w = (w, None)"
  using assms by (induction names) auto

lemma join_absolute_dir:
  assumes "startswith mypath ''/''" and "valid_name f"
  shows "startswith (join mypath f) ''/''"
  using assms valid_name_no_slash [OF assms(2)]
  by (cases mypath) (auto simp: join_def startswith_def)

lemma move_sibling_other:
  "g \<noteq> f \<Longrightarrow> g \<noteq> t \<Longrightarrow>
   map_of (nodes (move (d @ [f]) (d @ [t]) w)) (d @ g # rest) = map_of (nodes w) (d @ g # rest)"
  by (rule move_other) auto

lemma not_touches_fixed:
  "rename_target t = None \<or> rename_target t = Some (Inr t) \<Longrightarrow> \<not> touches t g"
  by (auto simp: touches_def)





section \<open>The computed name\<close>

text \<open>
  Claim C10. Whatever the entry name, the name the rename loop computes for it is in normal
  form: it is a prefix \<open>p\<close> with no underscore and no upper-case letter followed by the
  extension \<open>.jpg\<close>, the base that \<open>splitext\<close> finds in it has no underscore and no upper-case
  letter either, and the loop run on that name again either leaves it alone or computes the
  very same name. Upper case is what \<^verbatim>\<open>str.lower\<close> of a Python 2 byte string knows: the bytes
  \<open>A\<close> to \<open>Z\<close>.
\<close>

theorem target_name_normal_form:
  assumes "rename_target f = Some r"
  shows "\<exists>p. r = Inr (p @ ''.jpg'')
           \<and> CHR ''_'' \<notin> set p \<and> (\<forall>c\<in>set p. \<not> is_upper c)
           \<and> CHR ''_'' \<notin> set (fst (splitext (p @ ''.jpg'')))
           \<and> (\<forall>c\<in>set (fst (splitext (p @ ''.jpg''))). \<not> is_upper c)
           \<and> (rename_target (p @ ''.jpg'') = None
                \<or> rename_target (p @ ''.jpg'') = Some (Inr (p @ ''.jpg'')))"
proof -
  define p where "p = lower (takeWhile (\<lambda>x. x \<noteq> CHR ''_'') (fst (splitext f)))"
  have r: "r = Inr (p @ ''.jpg'')"
    using rename_target_Some [OF assms] by (simp add: p_def)
  have us: "CHR ''_'' \<notin> set p"
    unfolding p_def by (rule lower_no_underscore) (rule takeWhile_underscore_free)
  have up: "\<forall>c\<in>set p. \<not> is_upper c"
    unfolding p_def by (rule lower_no_upper)
  obtain b e where sp: "splitext (p @ ''.jpg'') = (b, e)"
    by (cases "splitext (p @ ''.jpg'')") blast
  from splitext_concat [OF sp] have "set b \<subseteq> set (p @ ''.jpg'')"
    by (metis set_append sup_ge1)
  then have sub: "set b \<subseteq> set p \<union> set ''.jpg''" by simp
  have b_us: "CHR ''_'' \<notin> set b"
    using sub us by auto
  have b_up: "\<forall>c\<in>set b. \<not> is_upper c"
  proof
    fix c assume "c \<in> set b"
    with sub have "c \<in> set p \<or> c \<in> set ''.jpg''" by blast
    then show "\<not> is_upper c"
      using up by (auto simp: is_upper_def)
  qed
  from r us up b_us b_up sp rename_target_fixed [OF us up] show ?thesis
    by (intro exI [of _ p]) simp
qed

theorem target_name_normal_form_witness:
  "rename_target ''X_Y.jpg'' = Some (Inr ''x.jpg'')
   \<and> (\<exists>p. (Inr ''x.jpg'' :: error + string) = Inr (p @ ''.jpg'')
           \<and> CHR ''_'' \<notin> set p \<and> (\<forall>c\<in>set p. \<not> is_upper c)
           \<and> CHR ''_'' \<notin> set (fst (splitext (p @ ''.jpg'')))
           \<and> (\<forall>c\<in>set (fst (splitext (p @ ''.jpg''))). \<not> is_upper c)
           \<and> (rename_target (p @ ''.jpg'') = None
                \<or> rename_target (p @ ''.jpg'') = Some (Inr (p @ ''.jpg''))))"
proof -
  have h: "rename_target ''X_Y.jpg'' = Some (Inr ''x.jpg'')"
    by code_simp
  show ?thesis
    using h target_name_normal_form [OF h] by blast
qed

section \<open>Renaming an entry with extension \<open>.jpg\<close>\<close>



section \<open>The dot file \<open>.jpg\<close>\<close>

text \<open>
  Claim C9. An entry named exactly \<^verbatim>\<open>.jpg\<close> is never renamed: \<open>splitext\<close> takes the
  leading dot as part of the base name and returns an empty extension, so the guard of the
  loop fails and the iteration leaves the world as it is; the extension of the glossary,
  what follows the last dot, would have been \<open>jpg\<close>.
\<close>

theorem dot_jpg_not_renamed:
  "splitext ''.jpg'' = (''.jpg'', [])
   \<and> rename_target ''.jpg'' = None
   \<and> rename_body dir ''.jpg'' w = Inr w
   \<and> glossary_extension ''.jpg'' = ''jpg''"
proof -
  have "rename_target ''.jpg'' = None"
    by (simp add: rename_target_def splitext_dot_jpg)
  moreover from this have "rename_body dir ''.jpg'' w = Inr w"
    by (rule rename_body_None)
  moreover have "glossary_extension ''.jpg'' = ''jpg''"
    by (simp add: glossary_extension_def)
  ultimately show ?thesis by (simp add: splitext_dot_jpg)
qed

section \<open>A second run on normalised names\<close>

text \<open>
  Claim C5. When every entry of the directory whose extension is \<open>.jpg\<close> has a base name
  with no underscore and no upper-case letter, the rename loop computes for each such entry
  its own name, and the pass completes and leaves the world exactly as it was. A second
  pass therefore ends in the state the first one ended in.
\<close>

theorem rename_pass_idempotent_normal:
  assumes "os_listdir w mypath = Inr names"
    and "\<forall>f\<in>set names. \<forall>b. splitext f = (b, ''.jpg'') \<longrightarrow>
           CHR ''_'' \<notin> set b \<and> (\<forall>c\<in>set b. \<not> is_upper c)"
  shows "(\<forall>f\<in>set names. rename_target f = None \<or> rename_target f = Some (Inr f))
    \<and> rename_pass mypath w = (w, None)
    \<and> rename_pass mypath (fst (rename_pass mypath w)) = rename_pass mypath w"
proof -
  have mp: "mypath \<noteq> []"
    using os_listdir_names [OF assms(1)] by simp
  have fixed: "rename_target f = None \<or> rename_target f = Some (Inr f)"
    if f: "f \<in> set names" for f
  proof (cases "snd (splitext f) = ''.jpg''")
    case False
    then show ?thesis by (auto simp: rename_target_def split: prod.splits)
  next
    case True
    then obtain b where sp: "splitext f = (b, ''.jpg'')"
      by (cases "splitext f") simp
    with assms(2) f have b: "CHR ''_'' \<notin> set b" "\<forall>c\<in>set b. \<not> is_upper c"
      by blast+
    have "lower (takeWhile (\<lambda>c. c \<noteq> CHR ''_'') b) = b"
      using takeWhile_no_underscore [OF b(1)] lower_fixed [OF b(2)] by (simp only:)
    with rename_target_jpg [OF sp] splitext_concat [OF sp]
    have "rename_target f = Some (Inr f)" by (simp only:)
    then show ?thesis ..
  qed
  have body: "rename_body mypath f w = Inr w" if f: "f \<in> set names" for f
  proof -
    from os_listdir_entries [OF assms(1) f]
    have v: "valid_name f" and ex: "map_of (nodes w) (resolve w mypath @ [f]) \<noteq> None"
      by simp_all
    from fixed [OF f] show ?thesis
    proof
      assume "rename_target f = None"
      then show ?thesis by (rule rename_body_None)
    next
      assume "rename_target f = Some (Inr f)"
      then have "rename_body mypath f w = os_rename (join mypath f) (join mypath f) w"
        by (rule rename_body_Some)
      moreover have "join mypath f \<noteq> []"
        using v by (intro join_nonempty) (simp add: valid_name_def)
      moreover have "map_of (nodes w) (resolve w (join mypath f)) \<noteq> None"
        using ex by (simp add: resolve_join [OF v mp])
      ultimately show ?thesis by (simp add: os_rename_self)
    qed
  qed
  then have "rename_loop mypath names w = (w, None)"
    by (intro rename_loop_identity) simp
  then have "rename_pass mypath w = (w, None)"
    by (simp add: rename_pass_def assms(1))
  with fixed show ?thesis by simp
qed

theorem rename_pass_idempotent_normal_witness:
  "os_listdir tidy ''pics'' = Inr [''photo.jpg'', ''notes.txt'', ''x.jpg'', ''album'']
   \<and> splitext ''photo.jpg'' = (''photo'', ''.jpg'')
   \<and> rename_target ''photo.jpg'' = Some (Inr ''photo.jpg'')
   \<and> rename_target ''notes.txt'' = None
   \<and> rename_pass ''pics'' tidy = (tidy, None)
   \<and> rename_pass ''pics'' (fst (rename_pass ''pics'' tidy)) = rename_pass ''pics'' tidy"
proof -
  have ls: "os_listdir tidy ''pics'' = Inr [''photo.jpg'', ''notes.txt'', ''x.jpg'', ''album'']"
    by code_simp
  have sp: "splitext ''photo.jpg'' = (''photo'', ''.jpg'')" "splitext ''notes.txt'' = (''notes'', ''.txt'')"
      "splitext ''x.jpg'' = (''x'', ''.jpg'')" "splitext ''album'' = (''album'', [])"
    by code_simp+
  have nf: "\<forall>f\<in>set [''photo.jpg'', ''notes.txt'', ''x.jpg'', ''album'']. \<forall>b. splitext f = (b, ''.jpg'') \<longrightarrow>
           CHR ''_'' \<notin> set b \<and> (\<forall>c\<in>set b. \<not> is_upper c)"
    by (auto simp: sp is_upper_def)
  have tg: "rename_target ''notes.txt'' = None"
    by (simp add: rename_target_def sp)
  have same: "rename_target ''photo.jpg'' = Some (Inr ''photo.jpg'')"
    by code_simp
  from rename_pass_idempotent_normal [OF ls nf] ls sp(1) tg same show ?thesis
    by simp
qed

section \<open>Unhandled failures\<close>

text \<open>
  Claim C7. Nothing handles a failure. When the first \<^verbatim>\<open>os.listdir\<close> fails, the script ends
  on that error with nothing printed and nothing renamed. When an iteration of the rename
  loop fails, the loop ends on that error in the world the earlier iterations left: their
  renames stay and no later entry is renamed. The same goes for the rename pass as a whole,
  and the error of the rename pass is the error the script ends on.
\<close>

theorem failure_propagates:
  "(os_listdir w mypath = Inl e \<longrightarrow> main script (a # mypath # rest) w = (w, Some e))
   \<and> (rename_loop dir xs w = (w1, None) \<and> rename_body dir f w1 = Inl e
        \<longrightarrow> rename_loop dir (xs @ f # ys) w = (w1, Some e))
   \<and> (os_listdir w mypath = Inr (xs @ f # ys) \<and> rename_loop mypath xs w = (w1, None)
        \<and> rename_body mypath f w1 = Inl e
        \<longrightarrow> rename_pass mypath w = (w1, Some e))
   \<and> (listing_pass (dirname script) mypath w = (w2, None) \<and> rename_pass mypath w2 = (w3, Some e)
        \<longrightarrow> main script (a # mypath # rest) w = (w3, Some e))"
proof -
  have loop: "rename_loop d xs w = (w1, None) \<Longrightarrow> rename_body d f w1 = Inl e
      \<Longrightarrow> rename_loop d (xs @ f # ys) w = (w1, Some e)" for d
    by (simp add: rename_loop_append)
  have first: "os_listdir w mypath = Inl e \<longrightarrow> main script (a # mypath # rest) w = (w, Some e)"
    by (simp add: main_def listing_pass_def)
  have pass: "os_listdir w mypath = Inr (xs @ f # ys) \<and> rename_loop mypath xs w = (w1, None)
        \<and> rename_body mypath f w1 = Inl e
        \<longrightarrow> rename_pass mypath w = (w1, Some e)"
    using loop [of mypath] by (simp add: rename_pass_def)
  have whole: "listing_pass (dirname script) mypath w = (w2, None) \<and> rename_pass mypath w2 = (w3, Some e)
        \<longrightarrow> main script (a # mypath # rest) w = (w3, Some e)"
    by (simp add: main_def)
  from first loop [of dir] pass whole show ?thesis by blast
qed

theorem failure_propagates_witness:
  "os_listdir pics ''nowhere'' = Inl ENOENT
   \<and> main ''/opt/tool/utils.py'' [''utils.py'', ''nowhere''] pics = (pics, Some ENOENT)
   \<and> rename_body ''pics'' ''a_1.jpg'' clash_dir_stopped = Inl EISDIR
   \<and> rename_loop ''pics'' ([''b_1.jpg''] @ ''a_1.jpg'' # [''a_2.jpg'', ''a.jpg'', ''c_1.jpg'']) clash_dir
      = (clash_dir_stopped, Some EISDIR)
   \<and> rename_pass ''pics'' clash_dir = (clash_dir_stopped, Some EISDIR)
   \<and> main ''/opt/tool/utils.py'' [''utils.py'', ''pics''] clash_dir
      = (clash_dir_stopped\<lparr>stdout := [''/opt/tool/pics/b_1.jpg'', ''/opt/tool/pics/a_1.jpg'',
                            ''/opt/tool/pics/a_2.jpg'', ''/opt/tool/pics/c_1.jpg'']\<rparr>, Some EISDIR)"
proof -
  let ?printed = "clash_dir\<lparr>stdout := [''/opt/tool/pics/b_1.jpg'', ''/opt/tool/pics/a_1.jpg'',
                            ''/opt/tool/pics/a_2.jpg'', ''/opt/tool/pics/c_1.jpg'']\<rparr>"
  let ?left = "clash_dir_stopped\<lparr>stdout := [''/opt/tool/pics/b_1.jpg'', ''/opt/tool/pics/a_1.jpg'',
                            ''/opt/tool/pics/a_2.jpg'', ''/opt/tool/pics/c_1.jpg'']\<rparr>"
  have missing: "os_listdir pics ''nowhere'' = Inl ENOENT"
    unfolding pics_def by code_simp
  have ls: "os_listdir clash_dir ''pics'' = Inr ([''b_1.jpg''] @ ''a_1.jpg'' # [''a_2.jpg'', ''a.jpg'', ''c_1.jpg''])"
    unfolding clash_dir_def by code_simp
  have ahead: "rename_loop ''pics'' [''b_1.jpg''] clash_dir = (clash_dir_stopped, None)"
    unfolding clash_dir_def clash_dir_stopped_def by code_simp
  have fails: "rename_body ''pics'' ''a_1.jpg'' clash_dir_stopped = Inl EISDIR"
    unfolding clash_dir_stopped_def by code_simp
  have listed: "listing_pass (dirname ''/opt/tool/utils.py'') ''pics'' clash_dir = (?printed, None)"
    unfolding clash_dir_def by code_simp
  have renamed: "rename_pass ''pics'' ?printed = (?left, Some EISDIR)"
    unfolding clash_dir_def clash_dir_stopped_def by code_simp
  from failure_propagates [where w = pics and mypath = "''nowhere''" and e = ENOENT
        and script = "''/opt/tool/utils.py''" and a = "''utils.py''" and rest = "[]"]
    missing
  have 1: "main ''/opt/tool/utils.py'' [''utils.py'', ''nowhere''] pics = (pics, Some ENOENT)"
    by blast
  from failure_propagates [where w = clash_dir and mypath = "''pics''" and e = EISDIR
        and script = "''/opt/tool/utils.py''" and a = "''utils.py''" and rest = "[]"
        and dir = "''pics''" and xs = "[''b_1.jpg'']" and ?w1.0 = clash_dir_stopped and f = "''a_1.jpg''"
        and ys = "[''a_2.jpg'', ''a.jpg'', ''c_1.jpg'']" and ?w2.0 = ?printed and ?w3.0 = ?left]
    ls ahead fails listed renamed
  have 2: "rename_loop ''pics'' ([''b_1.jpg''] @ ''a_1.jpg'' # [''a_2.jpg'', ''a.jpg'', ''c_1.jpg'']) clash_dir
      = (clash_dir_stopped, Some EISDIR)"
    and 3: "rename_pass ''pics'' clash_dir = (clash_dir_stopped, Some EISDIR)"
    and 4: "main ''/opt/tool/utils.py'' [''utils.py'', ''pics''] clash_dir = (?left, Some EISDIR)"
    by blast+
  from missing fails 1 2 3 4 show ?thesis by blast
qed

section \<open>Listing with an absolute argument\<close>

text \<open>
  Claim C8. When the directory argument is an absolute path, the listing pass prints, in
  listing order, one line for each regular file of the directory, and the line is
  \<^verbatim>\<open>os.path.join(mypath, f)\<close>: joining the script's directory in front changes nothing,
  because the path joined to it is already absolute. Each printed path is absolute and
  resolves, whatever the working directory, to the entry \<open>f\<close> of the directory.
\<close>

theorem absolute_argument_listing:
  assumes "startswith mypath ''/''" and "os_listdir w mypath = Inr names"
  shows "listing_pass dir_path mypath w
         = (w\<lparr>stdout := stdout w @ map (join mypath)
                 (filter (\<lambda>f. regular w (resolve w mypath @ [f])) names)\<rparr>, None)
    \<and> (\<forall>f\<in>set names.
          join dir_path (join mypath f) = join mypath f
          \<and> startswith (join mypath f) ''/''
          \<and> (\<forall>w'. resolve w' (join mypath f) = resolve w mypath @ [f]))"
proof -
  have mp: "mypath \<noteq> []"
    using os_listdir_names [OF assms(2)] by simp
  have valid: "\<forall>f\<in>set names. valid_name f"
    using os_listdir_entries [OF assms(2)] by blast
  have each: "join dir_path (join mypath f) = join mypath f
          \<and> startswith (join mypath f) ''/''
          \<and> (\<forall>w'. resolve w' (join mypath f) = resolve w mypath @ [f])"
    if f: "f \<in> set names" for f
  proof -
    from valid f have v: "valid_name f" by blast
    have abs: "startswith (join mypath f) ''/''"
      using assms(1) v by (rule join_absolute_dir)
    have "resolve w' (join mypath f) = resolve w mypath @ [f]" for w'
      using resolve_join [OF v mp, of w'] resolve_absolute [OF assms(1), of w' w]
      by simp
    with abs show ?thesis by (simp add: join_absolute)
  qed
  then have "map (\<lambda>f. join dir_path (join mypath f))
                 (filter (\<lambda>f. regular w (resolve w mypath @ [f])) names)
             = map (join mypath) (filter (\<lambda>f. regular w (resolve w mypath @ [f])) names)"
    by (intro map_cong) auto
  with listing_loop_prints [OF mp valid, of dir_path w]
  have "listing_pass dir_path mypath w
         = (w\<lparr>stdout := stdout w @ map (join mypath)
                 (filter (\<lambda>f. regular w (resolve w mypath @ [f])) names)\<rparr>, None)"
    by (simp add: listing_pass_def assms(2))
  with each show ?thesis by blast
qed

theorem absolute_argument_listing_witness:
  "startswith ''/home/u/pics/'' ''/''
   \<and> os_listdir (pics\<lparr>cwd := ''/tmp''\<rparr>) ''/home/u/pics/''
       = Inr [''X_Y.jpg'', ''album'', ''Photo.jpg'', ''notes.txt'', ''IMG.JPG'', ''Trip_2019.jpg'']
   \<and> listing_pass ''/opt/tool'' ''/home/u/pics/'' (pics\<lparr>cwd := ''/tmp''\<rparr>)
       = (pics\<lparr>cwd := ''/tmp'',
                stdout := [''/home/u/pics/X_Y.jpg'', ''/home/u/pics/Photo.jpg'',
                           ''/home/u/pics/notes.txt'', ''/home/u/pics/IMG.JPG'']\<rparr>, None)
   \<and> resolve pics ''/home/u/pics/X_Y.jpg'' = [''home'', ''u'', ''pics'', ''X_Y.jpg'']"
proof -
  let ?w = "pics\<lparr>cwd := ''/tmp''\<rparr>"
  have a: "startswith ''/home/u/pics/'' ''/''"
    by code_simp
  have ls: "os_listdir ?w ''/home/u/pics/''
       = Inr [''X_Y.jpg'', ''album'', ''Photo.jpg'', ''notes.txt'', ''IMG.JPG'', ''Trip_2019.jpg'']"
    unfolding pics_def by code_simp
  have ev: "stdout ?w @ map (join ''/home/u/pics/'')
                 (filter (\<lambda>f. regular ?w (resolve ?w ''/home/u/pics/'' @ [f]))
                   [''X_Y.jpg'', ''album'', ''Photo.jpg'', ''notes.txt'', ''IMG.JPG'', ''Trip_2019.jpg''])
            = [''/home/u/pics/X_Y.jpg'', ''/home/u/pics/Photo.jpg'',
                           ''/home/u/pics/notes.txt'', ''/home/u/pics/IMG.JPG'']"
    unfolding pics_def by code_simp
  have r: "resolve ?w ''/home/u/pics/'' @ [''X_Y.jpg''] = [''home'', ''u'', ''pics'', ''X_Y.jpg'']"
      "join ''/home/u/pics/'' ''X_Y.jpg'' = ''/home/u/pics/X_Y.jpg''"
    unfolding pics_def by code_simp+
  from absolute_argument_listing [OF a ls, of "''/opt/tool''"] ev r a ls
  show ?thesis by (simp add: pics_def)
qed

section \<open>Listing with a relative argument\<close>

text \<open>
  Claim C1, on a relative argument. The script lies in \<^verbatim>\<open>/opt/tool\<close>, the working directory
  is \<^verbatim>\<open>/home/u\<close> and the argument is \<^verbatim>\<open>pics\<close>. The entries listed and tested with
  \<^verbatim>\<open>os.path.isfile\<close> are those of \<^verbatim>\<open>/home/u/pics\<close>, but every printed line starts with the
  script's directory: the regular file \<^verbatim>\<open>/home/u/pics/notes.txt\<close> is printed as
  \<^verbatim>\<open>/opt/tool/pics/notes.txt\<close>, a path at which there is no file. The printed paths are not
  the absolute paths of the regular files of the directory.
\<close>

theorem relative_argument_listing_script_dir:
  "dirname ''/opt/tool/utils.py'' = ''/opt/tool''
   \<and> os_listdir pics ''pics''
       = Inr [''X_Y.jpg'', ''album'', ''Photo.jpg'', ''notes.txt'', ''IMG.JPG'', ''Trip_2019.jpg'']
   \<and> stdout (fst (main ''/opt/tool/utils.py'' [''utils.py'', ''pics''] pics))
       = [''/opt/tool/pics/X_Y.jpg'', ''/opt/tool/pics/Photo.jpg'',
          ''/opt/tool/pics/notes.txt'', ''/opt/tool/pics/IMG.JPG'']
   \<and> resolve pics ''pics'' @ [''notes.txt''] = [''home'', ''u'', ''pics'', ''notes.txt'']
   \<and> resolve pics ''/opt/tool/pics/notes.txt'' = [''opt'', ''tool'', ''pics'', ''notes.txt'']
   \<and> map_of (nodes pics) (resolve pics ''/opt/tool/pics/notes.txt'') = None
   \<and> isfile pics ''/opt/tool/pics/notes.txt'' = False
   \<and> isfile pics ''/home/u/pics/notes.txt'' = True"
  unfolding pics_def by code_simp

section \<open>Directories in the two loops\<close>

text \<open>
  Claim C2, on a directory that holds a subdirectory named \<^verbatim>\<open>Trip_2019.jpg\<close>. The listing
  loop has the guard \<^verbatim>\<open>os.path.isfile\<close> and prints neither subdirectory (see
  \<open>listing_loop_prints\<close> for the general fact). The rename loop has no such guard: the
  subdirectory has extension \<open>.jpg\<close>, and the pass renames it to \<^verbatim>\<open>trip.jpg\<close>, with the file
  inside it.
\<close>

theorem directory_jpg_renamed:
  "regular pics [''home'', ''u'', ''pics'', ''Trip_2019.jpg''] = False
   \<and> map_of (nodes pics) [''home'', ''u'', ''pics'', ''Trip_2019.jpg''] = Some (Dir True True)
   \<and> rename_body ''pics'' ''Trip_2019.jpg'' pics
       = os_rename ''pics/Trip_2019.jpg'' ''pics/trip.jpg'' pics
   \<and> rename_pass ''pics'' pics
       = (\<lparr>cwd = ''/home/u'',
           nodes =
             [([''home'', ''u'', ''pics''], Dir True True),
              ([''home'', ''u'', ''pics'', ''x.jpg''], File ''one''),
              ([''home'', ''u'', ''pics'', ''album''], Dir True True),
              ([''home'', ''u'', ''pics'', ''photo.jpg''], File ''two''),
              ([''home'', ''u'', ''pics'', ''notes.txt''], File ''three''),
              ([''home'', ''u'', ''pics'', ''IMG.JPG''], File ''four''),
              ([''home'', ''u'', ''pics'', ''trip.jpg''], Dir True True),
              ([''home'', ''u'', ''pics'', ''trip.jpg'', ''day1.txt''], File ''five'')],
           stdout = []\<rparr>, None)
   \<and> stdout (fst (listing_pass ''/opt/tool'' ''pics'' pics))
       = [''/opt/tool/pics/X_Y.jpg'', ''/opt/tool/pics/Photo.jpg'',
          ''/opt/tool/pics/notes.txt'', ''/opt/tool/pics/IMG.JPG'']"
  unfolding pics_def by code_simp

section \<open>Entries with another extension\<close>




section \<open>Two entries with the same new name\<close>




end
